theory Spec2Isabelle
  imports Main "HOL-Library.Word" "HOL-Library.Sublist"
begin

section \<open>The HTTP client factory of http.go\<close>

subsection \<open>Data\<close>

text \<open>
  Go strings are byte sequences; \<open>string\<close> (a list of 8-bit \<open>char\<close>) is used for them
  throughout.

  \<open>type SSLHostnameVerification bool\<close> with its two constants.
\<close>

type_synonym SSLHostnameVerification = bool

abbreviation (input) VerifySSLHostnames :: SSLHostnameVerification where
  "VerifySSLHostnames \<equiv> True"

abbreviation (input) NoVerifySSLHostnames :: SSLHostnameVerification where
  "NoVerifySSLHostnames \<equiv> False"

text \<open>
  \<open>x509.CertPool\<close>: the certificates of the pool, in the order they were added. The type
  \<open>'c\<close> stands for a parsed certificate. \<open>AddCert\<close> ignores a certificate the pool
  already holds.
\<close>

type_synonym 'c CertPool = "'c list"

definition NewCertPool :: "'c CertPool" where
  "NewCertPool = []"

definition AddCert :: "'c CertPool \<Rightarrow> 'c \<Rightarrow> 'c CertPool" where
  "AddCert s cert = (if cert \<in> set s then s else s @ [cert])"

text \<open>
  \<open>AppendCertsFromPEM\<close> walks over the PEM blocks of its argument and adds every block
  that is a certificate and parses; everything else is passed over. The PEM and X.509
  decoders belong to the Go library, so the model takes them as the parameter
  \<open>certsOfPEM\<close>: the certificates that the data yields, in order, the empty list for
  data with no usable certificate. The boolean result of the Go function (was any
  certificate added) is discarded by the only caller and is not modelled.
\<close>

definition AppendCertsFromPEM :: "(string \<Rightarrow> 'c list) \<Rightarrow> 'c CertPool \<Rightarrow> string \<Rightarrow> 'c CertPool" where
  "AppendCertsFromPEM certsOfPEM s pemCerts = foldl AddCert s (certsOfPEM pemCerts)"

text \<open>
  The fields of \<open>tls.Config\<close> that the package sets or that the specification speaks
  of. A nil pool pointer is \<open>None\<close>. The zero value of the struct is \<open>zeroConfig\<close>.
\<close>

record 'c tls_Config =
  RootCAs :: "'c CertPool option"
  InsecureSkipVerify :: bool
  CipherSuites :: "16 word list"
  MinVersion :: "16 word"

definition zeroConfig :: "'c tls_Config" where
  "zeroConfig = \<lparr>RootCAs = None, InsecureSkipVerify = False, CipherSuites = [], MinVersion = 0\<rparr>"

text \<open>
  Modelled from the spec: \<open>SecureTLSConfig\<close> is defined in another file of the package,
  which is not among the sources. Section 4.1 of the specification gives its contract: a
  configuration with no trust pool, \<open>InsecureSkipVerify = false\<close>, and protocol and cipher
  restrictions fixed at build time. The specification does not give the values of the
  restrictions, so they are the parameters \<open>minVersion\<close> and \<open>cipherSuites\<close>.
\<close>

definition SecureTLSConfig :: "16 word \<Rightarrow> 16 word list \<Rightarrow> 'c tls_Config" where
  "SecureTLSConfig minVersion cipherSuites =
     \<lparr>RootCAs = None, InsecureSkipVerify = False,
      CipherSuites = cipherSuites, MinVersion = minVersion\<rparr>"

text \<open>
  \<open>NewHttpTLSTransport\<close> is defined in another file of the package as well. Nothing is
  assumed about it: a transport is represented by the call that made it, that is by the
  configuration handed to \<open>NewHttpTLSTransport\<close>.
\<close>

datatype 'c http_Transport = NewHttpTLSTransport (TLSClientConfig: "'c tls_Config")

text \<open>\<open>http.Client\<close>; a nil \<open>Transport\<close> (the default transport is used) is \<open>None\<close>.\<close>

record 'c http_Client =
  Transport :: "'c http_Transport option"

subsection \<open>Operations\<close>

text \<open>The loop of \<open>getHTTPClientWithCerts\<close> over the certificate strings.\<close>

definition buildPool :: "(string \<Rightarrow> 'c list) \<Rightarrow> string list \<Rightarrow> 'c CertPool" where
  "buildPool certsOfPEM certs = foldl (AppendCertsFromPEM certsOfPEM) NewCertPool certs"

text \<open>A nil client pointer is \<open>None\<close>.\<close>

definition getHTTPClientWithCerts ::
  "16 word \<Rightarrow> 16 word list \<Rightarrow> (string \<Rightarrow> 'c list) \<Rightarrow>
   SSLHostnameVerification \<Rightarrow> string list \<Rightarrow> 'c http_Client option" where
  "getHTTPClientWithCerts minVersion cipherSuites certsOfPEM verify certs =
     (if length certs = 0 then None
      else
        let pool = buildPool certsOfPEM certs;
            tlsConfig = SecureTLSConfig minVersion cipherSuites;
            tlsConfig = tlsConfig\<lparr>RootCAs := Some pool\<rparr>;
            tlsConfig = (if verify = NoVerifySSLHostnames
                         then tlsConfig\<lparr>InsecureSkipVerify := True\<rparr> else tlsConfig)
        in Some \<lparr>Transport = Some (NewHttpTLSTransport tlsConfig)\<rparr>)"

definition GetValidatingHTTPClient :: "'c http_Client option" where
  "GetValidatingHTTPClient = Some \<lparr>Transport = None\<rparr>"

definition GetNonValidatingHTTPClient :: "'c http_Client option" where
  "GetNonValidatingHTTPClient =
     Some \<lparr>Transport = Some (NewHttpTLSTransport (zeroConfig\<lparr>InsecureSkipVerify := True\<rparr>))\<rparr>"

definition GetHTTPClient ::
  "16 word \<Rightarrow> 16 word list \<Rightarrow> (string \<Rightarrow> 'c list) \<Rightarrow>
   SSLHostnameVerification \<Rightarrow> string list \<Rightarrow> 'c http_Client option" where
  "GetHTTPClient minVersion cipherSuites certsOfPEM verify certs =
     (if length certs > 0
      then getHTTPClientWithCerts minVersion cipherSuites certsOfPEM verify certs
      else if verify = VerifySSLHostnames then GetValidatingHTTPClient
      else GetNonValidatingHTTPClient)"

text \<open>
  The TLS configuration a client was built with: none for a nil client and for a client
  on the default transport.
\<close>

definition tlsConfigOf :: "'c http_Client option \<Rightarrow> 'c tls_Config option" where
  "tlsConfigOf c =
     (case c of None \<Rightarrow> None
      | Some cl \<Rightarrow> (case Transport cl of None \<Rightarrow> None
                   | Some t \<Rightarrow> Some (TLSClientConfig t)))"

section \<open>The dial gate of http.go\<close>

text \<open>
  \<open>net.SplitHostPort\<close> of the Go library, with its helpers. The index functions return
  \<open>None\<close> where Go returns \<open>-1\<close>. The error carries Go's message and the address.
\<close>

definition IndexByteString :: "string \<Rightarrow> char \<Rightarrow> nat option" where
  "IndexByteString s c =
     (if c \<in> set s then Some (length (takeWhile (\<lambda>x. x \<noteq> c) s)) else None)"

definition LastIndexByteString :: "string \<Rightarrow> char \<Rightarrow> nat option" where
  "LastIndexByteString s c =
     (if c \<in> set s then Some (length s - 1 - length (takeWhile (\<lambda>x. x \<noteq> c) (rev s)))
      else None)"

datatype AddrError = AddrError (Err: string) (Addr: string)

definition missingPort :: string where
  "missingPort = ''missing port in address''"

definition tooManyColons :: string where
  "tooManyColons = ''too many colons in address''"

definition splitTail ::
  "string \<Rightarrow> string \<Rightarrow> nat \<Rightarrow> nat \<Rightarrow> nat \<Rightarrow> AddrError + (string \<times> string)" where
  "splitTail hostport host i j k =
     (if IndexByteString (drop j hostport) CHR ''['' \<noteq> None
      then Inl (AddrError ''unexpected '[' in address'' hostport)
      else if IndexByteString (drop k hostport) CHR '']'' \<noteq> None
      then Inl (AddrError ''unexpected ']' in address'' hostport)
      else Inr (host, drop (i + 1) hostport))"

definition SplitHostPort :: "string \<Rightarrow> AddrError + (string \<times> string)" where
  "SplitHostPort hostport =
     (case LastIndexByteString hostport CHR '':'' of
        None \<Rightarrow> Inl (AddrError missingPort hostport)
      | Some i \<Rightarrow>
          if take 1 hostport = ''[''
          then (case IndexByteString hostport CHR '']'' of
                  None \<Rightarrow> Inl (AddrError ''missing ']' in address'' hostport)
                | Some end \<Rightarrow>
                    if end + 1 = length hostport then Inl (AddrError missingPort hostport)
                    else if end + 1 = i
                    then splitTail hostport (take (end - 1) (drop 1 hostport)) i 1 (end + 1)
                    else if hostport ! (end + 1) = CHR '':''
                    then Inl (AddrError tooManyColons hostport)
                    else Inl (AddrError missingPort hostport))
          else
            let host = take i hostport in
            if IndexByteString host CHR '':'' \<noteq> None
            then Inl (AddrError tooManyColons hostport)
            else splitTail hostport host i 0 0)"

text \<open>
  \<open>net.IP\<close> is a byte slice; nil and the empty slice are both \<open>[]\<close>. \<open>To4\<close>,
  \<open>Equal\<close> and \<open>IsLoopback\<close> follow the Go library.
\<close>

type_synonym IP = "8 word list"

definition v4InV6Prefix :: IP where
  "v4InV6Prefix = [0, 0, 0, 0, 0, 0, 0, 0, 0, 0, 0xff, 0xff]"

definition IPv6loopback :: IP where
  "IPv6loopback = [0, 0, 0, 0, 0, 0, 0, 0, 0, 0, 0, 0, 0, 0, 0, 1]"

definition isZeros :: "IP \<Rightarrow> bool" where
  "isZeros p = list_all (\<lambda>b. b = 0) p"

definition To4 :: "IP \<Rightarrow> IP" where
  "To4 ip =
     (if length ip = 4 then ip
      else if length ip = 16 \<and> isZeros (take 10 ip) \<and> ip ! 10 = 0xff \<and> ip ! 11 = 0xff
      then drop 12 ip
      else [])"

definition Equal :: "IP \<Rightarrow> IP \<Rightarrow> bool" where
  "Equal ip x =
     (if length ip = length x then ip = x
      else if length ip = 4 \<and> length x = 16
      then take 12 x = v4InV6Prefix \<and> ip = drop 12 x
      else if length ip = 16 \<and> length x = 4
      then take 12 ip = v4InV6Prefix \<and> drop 12 ip = x
      else False)"

definition IsLoopback :: "IP \<Rightarrow> bool" where
  "IsLoopback ip =
     (let ip4 = To4 ip in
      if ip4 \<noteq> [] then ip4 ! 0 = 127
      else Equal ip IPv6loopback)"

text \<open>
  \<open>isLocalAddr\<close> of http.go. The textual parser \<open>net.ParseIP\<close> of the Go library is the
  parameter \<open>ParseIP\<close>; it returns nil, here \<open>[]\<close>, for a string that is not an IP
  address.
\<close>

definition isLocalAddr :: "(string \<Rightarrow> IP) \<Rightarrow> string \<Rightarrow> bool" where
  "isLocalAddr ParseIP addr =
     (case SplitHostPort addr of
        Inl err \<Rightarrow> False
      | Inr (host, port) \<Rightarrow> host = ''localhost'' \<or> IsLoopback (ParseIP host))"

text \<open>
  The package variable \<open>OutgoingAccessAllowed\<close> with its initial value.
\<close>

record DialGateState =
  OutgoingAccessAllowed :: bool

definition initialDialGateState :: DialGateState where
  "initialDialGateState = \<lparr>OutgoingAccessAllowed = True\<rparr>"

datatype DialError = ConnectionRefused

text \<open>
  Modelled from the spec: the dial function that \<open>installHTTPDialShim\<close> puts into a
  transport is defined in another file of the package, which is not among the sources.
  Section 4.3 of the specification: \<open>AllowDial(address)\<close> fails with
  \<open>ConnectionRefused\<close> when \<open>OutgoingAccessAllowed\<close> is false and \<open>IsLocal(address)\<close>
  is false; otherwise the dial proceeds (\<open>Inr ()\<close>: the connection attempt itself is
  outside the model).
\<close>

definition AllowDial :: "DialGateState \<Rightarrow> (string \<Rightarrow> IP) \<Rightarrow> string \<Rightarrow> DialError + unit" where
  "AllowDial st ParseIP address =
     (if \<not> OutgoingAccessAllowed st \<and> \<not> isLocalAddr ParseIP address
      then Inl ConnectionRefused
      else Inr ())"

section \<open>The Basic Auth codec of http.go\<close>

text \<open>
  \<open>http.Header\<close> maps a key to its list of values. \<open>Get\<close> returns the first value of
  the key and the empty string when there is none. \<open>Get\<close> looks the key up in its
  canonical form; the only key used, \<open>Authorization\<close>, is in that form already.
\<close>

type_synonym Header = "string \<rightharpoonup> string list"

definition HeaderGet :: "Header \<Rightarrow> string \<Rightarrow> string" where
  "HeaderGet h key = (case h key of None \<Rightarrow> [] | Some [] \<Rightarrow> [] | Some (v # _) \<Rightarrow> v)"

text \<open>
  \<open>strings.Fields\<close> of the Go library splits a string around each run of white space
  as \<open>unicode.IsSpace\<close> defines it: the six ASCII characters tab, line feed, vertical
  tab, form feed, carriage return and space, and the code points U+0085, U+00A0, U+1680,
  U+2000 to U+200A, U+2028, U+2029, U+202F, U+205F and U+3000. \<open>spaceRunes\<close> lists their
  UTF-8 encodings. No encoding is a prefix of another, each starts with an ASCII byte or
  a UTF-8 leading byte, and Go decodes an invalid byte as one rune that is not white
  space; so a white-space rune stands at a position exactly when one of the encodings
  does, and the scan can go byte by byte. \<open>spaceWidth\<close> is the length of the white-space
  rune at the head of the string, \<open>0\<close> when there is none. \<open>fieldsFrom cur s\<close> scans
  \<open>s\<close> with \<open>cur\<close> the field collected so far.
\<close>

definition spaceRunes :: "string list" where
  "spaceRunes =
     [[CHR 0x09], [CHR 0x0A], [CHR 0x0B], [CHR 0x0C], [CHR 0x0D], [CHR 0x20],
      [CHR 0xC2, CHR 0x85], [CHR 0xC2, CHR 0xA0],
      [CHR 0xE1, CHR 0x9A, CHR 0x80],
      [CHR 0xE2, CHR 0x80, CHR 0x80], [CHR 0xE2, CHR 0x80, CHR 0x81],
      [CHR 0xE2, CHR 0x80, CHR 0x82], [CHR 0xE2, CHR 0x80, CHR 0x83],
      [CHR 0xE2, CHR 0x80, CHR 0x84], [CHR 0xE2, CHR 0x80, CHR 0x85],
      [CHR 0xE2, CHR 0x80, CHR 0x86], [CHR 0xE2, CHR 0x80, CHR 0x87],
      [CHR 0xE2, CHR 0x80, CHR 0x88], [CHR 0xE2, CHR 0x80, CHR 0x89],
      [CHR 0xE2, CHR 0x80, CHR 0x8A],
      [CHR 0xE2, CHR 0x80, CHR 0xA8], [CHR 0xE2, CHR 0x80, CHR 0xA9],
      [CHR 0xE2, CHR 0x80, CHR 0xAF],
      [CHR 0xE2, CHR 0x81, CHR 0x9F],
      [CHR 0xE3, CHR 0x80, CHR 0x80]]"

definition spaceWidth :: "string \<Rightarrow> nat" where
  "spaceWidth s = (case find (\<lambda>e. prefix e s) spaceRunes of None \<Rightarrow> 0 | Some e \<Rightarrow> length e)"

definition flush :: "string \<Rightarrow> string list" where
  "flush cur = (if cur = [] then [] else [cur])"

function fieldsFrom :: "string \<Rightarrow> string \<Rightarrow> string list" where
  "fieldsFrom cur [] = flush cur"
| "fieldsFrom cur (c # s) =
     (if spaceWidth (c # s) > 0
      then flush cur @ fieldsFrom [] (drop (spaceWidth (c # s)) (c # s))
      else fieldsFrom (cur @ [c]) s)"
  by pat_completeness auto
termination
  by (relation "measure (\<lambda>(cur, s). length s)") auto

definition Fields :: "string \<Rightarrow> string list" where
  "Fields s = fieldsFrom [] s"

text \<open>
  \<open>base64.StdEncoding\<close> of the Go library: the standard alphabet with \<open>=\<close> padding.
  \<open>EncodeToString\<close> packs three bytes into \<open>val\<close> and emits four characters, indexing
  the alphabet with six bits each; the shifts and masks of the Go code are written as
  \<open>div\<close> and \<open>mod\<close>. \<open>DecodeString\<close> passes over carriage returns and line feeds,
  reads quanta of four characters, accepts padding only in the last quantum and only as
  \<open>xx==\<close> or \<open>xxx=\<close>, and fails on anything else (\<open>None\<close> stands for Go's
  \<open>CorruptInputError\<close>, whose offset is not modelled).
\<close>

definition encodeStd :: string where
  "encodeStd = ''ABCDEFGHIJKLMNOPQRSTUVWXYZabcdefghijklmnopqrstuvwxyz0123456789+/''"

definition encode :: "nat \<Rightarrow> char" where
  "encode v = encodeStd ! (v mod 64)"

definition decodeMap :: "char \<Rightarrow> nat option" where
  "decodeMap c = IndexByteString encodeStd c"

definition padChar :: char where
  "padChar = CHR ''=''"

fun EncodeToString :: "string \<Rightarrow> string" where
  "EncodeToString [] = []"
| "EncodeToString [a] =
     (let val = of_char a * 65536
      in [encode (val div 262144), encode (val div 4096), padChar, padChar])"
| "EncodeToString [a, b] =
     (let val = of_char a * 65536 + of_char b * 256
      in [encode (val div 262144), encode (val div 4096), encode (val div 64), padChar])"
| "EncodeToString (a # b # c # src) =
     (let val = of_char a * 65536 + of_char b * 256 + of_char c
      in [encode (val div 262144), encode (val div 4096), encode (val div 64), encode val]
         @ EncodeToString src)"

fun decodeQuanta :: "string \<Rightarrow> string option" where
  "decodeQuanta [] = Some []"
| "decodeQuanta (a # b # c # d # src) =
     (case (decodeMap a, decodeMap b) of
        (Some s0, Some s1) \<Rightarrow>
          if c = padChar
          then (if d = padChar \<and> src = []
                then Some [char_of ((s0 * 262144 + s1 * 4096) div 65536)]
                else None)
          else (case decodeMap c of
                  None \<Rightarrow> None
                | Some s2 \<Rightarrow>
                    if d = padChar
                    then (if src = []
                          then (let val = s0 * 262144 + s1 * 4096 + s2 * 64
                                in Some [char_of (val div 65536), char_of (val div 256)])
                          else None)
                    else (case decodeMap d of
                            None \<Rightarrow> None
                          | Some s3 \<Rightarrow>
                              (let val = s0 * 262144 + s1 * 4096 + s2 * 64 + s3
                               in map_option
                                    (\<lambda>r. [char_of (val div 65536), char_of (val div 256),
                                          char_of val] @ r)
                                    (decodeQuanta src))))
      | _ \<Rightarrow> None)"
| "decodeQuanta _ = None"

definition DecodeString :: "string \<Rightarrow> string option" where
  "DecodeString s = decodeQuanta (filter (\<lambda>c. c \<noteq> CHR 0x0D \<and> c \<noteq> CHR 0x0A) s)"

text \<open>
  \<open>strings.SplitN\<close> for a separator of one byte: at most \<open>n\<close> pieces, the last one the
  unsplit rest.
\<close>

fun SplitN :: "string \<Rightarrow> char \<Rightarrow> nat \<Rightarrow> string list" where
  "SplitN s sep 0 = []"
| "SplitN s sep (Suc n) =
     (if n = 0 then [s]
      else (case IndexByteString s sep of
              None \<Rightarrow> [s]
            | Some m \<Rightarrow> take m s # SplitN (drop (m + 1) s) sep n))"

text \<open>
  \<open>BasicAuthHeader\<close> and \<open>ParseBasicAuthHeader\<close> of http.go. An error made by
  \<open>fmt.Errorf\<close> is its message.
\<close>

datatype error = Errorf string

definition BasicAuthHeader :: "string \<Rightarrow> string \<Rightarrow> Header" where
  "BasicAuthHeader username password =
     (let auth = username @ '':'' @ password;
          encoded = ''Basic '' @ EncodeToString auth
      in [''Authorization'' \<mapsto> [encoded]])"

definition ParseBasicAuthHeader :: "Header \<Rightarrow> error + (string \<times> string)" where
  "ParseBasicAuthHeader h =
     (let parts = Fields (HeaderGet h ''Authorization'')
      in if length parts \<noteq> 2 \<or> parts ! 0 \<noteq> ''Basic''
         then Inl (Errorf ''invalid or missing HTTP auth header'')
         else (case DecodeString (parts ! 1) of
                 None \<Rightarrow> Inl (Errorf ''invalid HTTP auth encoding'')
               | Some challenge \<Rightarrow>
                   let tokens = SplitN challenge CHR '':'' 2
                   in if length tokens \<noteq> 2
                      then Inl (Errorf ''invalid HTTP auth contents'')
                      else Inr (tokens ! 0, tokens ! 1)))"

text \<open>
  Two predicates for stating properties: a byte that starts no white-space rune, and an
  ASCII white-space byte.
\<close>

definition startsSpace :: "char \<Rightarrow> bool" where
  "startsSpace c = (c \<in> set (map hd spaceRunes))"

definition asciiSpace :: "char \<Rightarrow> bool" where
  "asciiSpace c = (c \<in> set [CHR 0x09, CHR 0x0A, CHR 0x0B, CHR 0x0C, CHR 0x0D, CHR 0x20])"

section \<open>Properties of the client factory\<close>

lemma tlsConfigOf_withCerts:
  "certs \<noteq> [] \<Longrightarrow>
   tlsConfigOf (GetHTTPClient mv cs p verify certs) =
     Some \<lparr>RootCAs = Some (buildPool p certs), InsecureSkipVerify = (\<not> verify),
           CipherSuites = cs, MinVersion = mv\<rparr>"
  by (simp add: GetHTTPClient_def getHTTPClientWithCerts_def tlsConfigOf_def
      SecureTLSConfig_def Let_def)

lemma tlsConfigOf_noCerts_noVerify:
  "tlsConfigOf (GetHTTPClient mv cs p NoVerifySSLHostnames []) =
     Some \<lparr>RootCAs = None, InsecureSkipVerify = True, CipherSuites = [], MinVersion = 0\<rparr>"
  by (simp add: GetHTTPClient_def GetNonValidatingHTTPClient_def tlsConfigOf_def
      zeroConfig_def)

lemma tlsConfigOf_noCerts_verify:
  "tlsConfigOf (GetHTTPClient mv cs p VerifySSLHostnames []) = None"
  by (simp add: GetHTTPClient_def GetValidatingHTTPClient_def tlsConfigOf_def)

lemma set_AddCert: "set (AddCert s c) = insert c (set s)"
  by (auto simp: AddCert_def)

lemma set_foldl_AddCert: "set (foldl AddCert s cs) = set s \<union> set cs"
  by (induction cs arbitrary: s) (auto simp: set_AddCert)

lemma set_foldl_AppendCerts:
  "set (foldl (AppendCertsFromPEM p) s certs) = set s \<union> (\<Union>c\<in>set certs. set (p c))"
  by (induction certs arbitrary: s) (auto simp: AppendCertsFromPEM_def set_foldl_AddCert)

lemma set_buildPool: "set (buildPool p certs) = (\<Union>c\<in>set certs. set (p c))"
  by (simp add: buildPool_def set_foldl_AppendCerts NewCertPool_def)

lemma foldl_AppendCerts_skip:
  "foldl (AppendCertsFromPEM p) s certs =
   foldl (AppendCertsFromPEM p) s (filter (\<lambda>c. p c \<noteq> []) certs)"
  by (induction certs arbitrary: s) (auto simp: AppendCertsFromPEM_def)

lemma GetHTTPClient_not_nil: "GetHTTPClient mv cs p verify certs \<noteq> None"
  by (simp add: GetHTTPClient_def getHTTPClientWithCerts_def Let_def
      GetValidatingHTTPClient_def GetNonValidatingHTTPClient_def)

subsection \<open>Claims about the client factory\<close>

text \<open>
  C1. Whatever the certificate list, a client asked for with \<open>NoVerifySSLHostnames\<close> has a
  TLS configuration with \<open>InsecureSkipVerify\<close> set, with or without a pool. A non-empty
  certificate list does not switch verification off: with \<open>VerifySSLHostnames\<close> the
  configuration has \<open>InsecureSkipVerify\<close> false and the pool built from the list as its
  \<open>RootCAs\<close>.
\<close>

theorem skip_verify_follows_mode:
  "(\<exists>cfg. tlsConfigOf (GetHTTPClient mv cs p NoVerifySSLHostnames certs) = Some cfg
          \<and> InsecureSkipVerify cfg) \<and>
   (certs \<noteq> [] \<longrightarrow>
     (\<exists>cfg. tlsConfigOf (GetHTTPClient mv cs p VerifySSLHostnames certs) = Some cfg
          \<and> \<not> InsecureSkipVerify cfg \<and> RootCAs cfg = Some (buildPool p certs)))"
  by (cases certs) (simp_all add: tlsConfigOf_withCerts tlsConfigOf_noCerts_noVerify)

theorem skip_verify_follows_mode_witness:
  "(\<exists>cfg. tlsConfigOf (GetHTTPClient 0x0303 [0xC02F] (\<lambda>s. [length s])
             NoVerifySSLHostnames [''A'']) = Some cfg
          \<and> InsecureSkipVerify cfg) \<and>
   [''A''] \<noteq> [] \<and>
   (\<exists>cfg. tlsConfigOf (GetHTTPClient 0x0303 [0xC02F] (\<lambda>s. [length s])
             VerifySSLHostnames [''A'']) = Some cfg
          \<and> \<not> InsecureSkipVerify cfg
          \<and> RootCAs cfg = Some (buildPool (\<lambda>s. [length s]) [''A'']))"
  using skip_verify_follows_mode [of "0x0303" "[0xC02F]" "\<lambda>s. [length s]" "[''A'']"]
  by simp

text \<open>
  C2. With \<open>NoVerifySSLHostnames\<close> and a non-empty certificate list the configuration has
  both \<open>InsecureSkipVerify\<close> set and \<open>RootCAs\<close> set to the pool built from the list, and
  that pool holds exactly the certificates that the entries of the list yield.
\<close>

theorem noverify_keeps_pool:
  "certs \<noteq> [] \<Longrightarrow>
   \<exists>cfg pool. tlsConfigOf (GetHTTPClient mv cs p NoVerifySSLHostnames certs) = Some cfg
      \<and> InsecureSkipVerify cfg \<and> RootCAs cfg = Some pool
      \<and> pool = buildPool p certs \<and> set pool = (\<Union>c\<in>set certs. set (p c))"
  by (simp add: tlsConfigOf_withCerts set_buildPool)

theorem noverify_keeps_pool_witness:
  "[''certA''] \<noteq> [] \<and>
   (\<exists>cfg pool. tlsConfigOf (GetHTTPClient 0x0303 [0xC02F] (\<lambda>s. [length s])
                  NoVerifySSLHostnames [''certA'']) = Some cfg
      \<and> InsecureSkipVerify cfg \<and> RootCAs cfg = Some pool
      \<and> pool = buildPool (\<lambda>s. [length s]) [''certA'']
      \<and> set pool = (\<Union>c\<in>set [''certA'']. set ([length c])))"
  using noverify_keeps_pool [of "[''certA'']" "0x0303" "[0xC02F]" "\<lambda>s. [length s]"]
  by simp

text \<open>
  C8. Construction cannot fail: for every mode and every certificate list
  \<open>GetHTTPClient\<close> returns a client. Entries that yield no certificate leave the pool as
  it is, so the pool is the one built from the other entries alone, and when no entry
  yields a certificate the pool is empty; a non-empty list of such entries still gives a
  client, with the empty pool as \<open>RootCAs\<close>.
\<close>

theorem construction_never_fails:
  "GetHTTPClient mv cs p verify certs \<noteq> None \<and>
   buildPool p certs = buildPool p (filter (\<lambda>c. p c \<noteq> []) certs) \<and>
   ((\<forall>c\<in>set certs. p c = []) \<longrightarrow> buildPool p certs = []) \<and>
   ((\<forall>c\<in>set certs. p c = []) \<and> certs \<noteq> [] \<longrightarrow>
      (\<exists>cfg. tlsConfigOf (GetHTTPClient mv cs p verify certs) = Some cfg
         \<and> RootCAs cfg = Some []))"
proof -
  have skip: "buildPool p certs = buildPool p (filter (\<lambda>c. p c \<noteq> []) certs)"
    unfolding buildPool_def by (rule foldl_AppendCerts_skip)
  have empty: "buildPool p certs = []" if "\<forall>c\<in>set certs. p c = []"
  proof -
    from that have "filter (\<lambda>c. p c \<noteq> []) certs = []" by (simp add: filter_empty_conv)
    with skip show ?thesis by (simp add: buildPool_def NewCertPool_def)
  qed
  show ?thesis
    using skip empty by (simp add: GetHTTPClient_not_nil tlsConfigOf_withCerts)
qed

theorem construction_never_fails_witness:
  "GetHTTPClient 0x0303 [0xC02F] (\<lambda>s. [] :: nat list) VerifySSLHostnames [''junk'', ''x'']
     \<noteq> None \<and>
   list_all (\<lambda>c. (\<lambda>s. [] :: nat list) c = []) [''junk'', ''x''] \<and>
   [''junk'', ''x''] \<noteq> [] \<and>
   buildPool (\<lambda>s. [] :: nat list) [''junk'', ''x''] = [] \<and>
   (\<exists>cfg. tlsConfigOf (GetHTTPClient 0x0303 [0xC02F] (\<lambda>s. [] :: nat list)
             VerifySSLHostnames [''junk'', ''x'']) = Some cfg
      \<and> RootCAs cfg = Some [])"
  using construction_never_fails [of "0x0303" "[0xC02F]" "\<lambda>s. [] :: nat list"
      VerifySSLHostnames "[''junk'', ''x'']"]
  by (simp add: buildPool_def NewCertPool_def)

text \<open>
  C10. \<open>GetHTTPClient\<close> never returns a nil client. The helper \<open>getHTTPClientWithCerts\<close>
  returns nil exactly for the empty certificate list, and \<open>GetHTTPClient\<close> hands a list
  to the helper only when it is non-empty: for the empty list its result is that of
  \<open>GetValidatingHTTPClient\<close> or \<open>GetNonValidatingHTTPClient\<close>.
\<close>

theorem nil_branch_unreachable:
  "GetHTTPClient mv cs p verify certs \<noteq> None \<and>
   (getHTTPClientWithCerts mv cs p verify certs = None \<longleftrightarrow> certs = []) \<and>
   (certs \<noteq> [] \<longrightarrow>
      GetHTTPClient mv cs p verify certs = getHTTPClientWithCerts mv cs p verify certs) \<and>
   (certs = [] \<longrightarrow>
      GetHTTPClient mv cs p verify certs =
        (if verify then GetValidatingHTTPClient else GetNonValidatingHTTPClient))"
  by (simp add: GetHTTPClient_not_nil)
     (simp add: GetHTTPClient_def getHTTPClientWithCerts_def Let_def)

theorem nil_branch_unreachable_witness:
  "GetHTTPClient 0x0303 [0xC02F] (\<lambda>s. [length s]) NoVerifySSLHostnames [''A''] \<noteq> None \<and>
   [''A''] \<noteq> [] \<and>
   getHTTPClientWithCerts 0x0303 [0xC02F] (\<lambda>s. [length s]) NoVerifySSLHostnames [''A'']
     \<noteq> None \<and>
   GetHTTPClient 0x0303 [0xC02F] (\<lambda>s. [length s]) NoVerifySSLHostnames [''A''] =
     getHTTPClientWithCerts 0x0303 [0xC02F] (\<lambda>s. [length s]) NoVerifySSLHostnames [''A'']"
  using nil_branch_unreachable [of "0x0303" "[0xC02F]" "\<lambda>s. [length s]"
      NoVerifySSLHostnames "[''A'']"]
  by simp

text \<open>
  C9, as stated: every client variant starts from the baseline configuration, and in
  particular the client for \<open>NoVerifySSLHostnames\<close> and no certificates carries the
  baseline's minimum version and cipher suites next to \<open>InsecureSkipVerify = true\<close>. It
  fails for a baseline that asks for TLS 1.2 and one cipher suite:
  \<open>GetNonValidatingHTTPClient\<close> builds its configuration from the zero value.
\<close>

theorem baseline_for_all_variants_counterexample:
  "\<not> (\<exists>cfg. tlsConfigOf (GetHTTPClient 0x0303 [0xC02F] (\<lambda>s. [] :: nat list)
               NoVerifySSLHostnames []) = Some cfg
          \<and> InsecureSkipVerify cfg
          \<and> MinVersion cfg = MinVersion (SecureTLSConfig 0x0303 [0xC02F] :: nat tls_Config)
          \<and> CipherSuites cfg
              = CipherSuites (SecureTLSConfig 0x0303 [0xC02F] :: nat tls_Config))"
  by (simp add: tlsConfigOf_noCerts_noVerify SecureTLSConfig_def)

text \<open>
  C9, amended: only the client built from a non-empty certificate list starts from the
  baseline configuration: its minimum version and cipher suites are the baseline's. The
  client for \<open>NoVerifySSLHostnames\<close> and no certificates has the zero configuration with
  \<open>InsecureSkipVerify\<close> set and nothing else: no minimum version, no cipher suites, no
  pool. The client for \<open>VerifySSLHostnames\<close> and no certificates has no transport of its
  own and so no TLS configuration of its own.
\<close>

theorem baseline_only_with_certs:
  "(certs \<noteq> [] \<longrightarrow>
      (\<exists>cfg. tlsConfigOf (GetHTTPClient mv cs p verify certs) = Some cfg
         \<and> MinVersion cfg = MinVersion (SecureTLSConfig mv cs :: 'c tls_Config)
         \<and> CipherSuites cfg = CipherSuites (SecureTLSConfig mv cs :: 'c tls_Config)
         \<and> cfg = (SecureTLSConfig mv cs)
                   \<lparr>RootCAs := Some (buildPool p certs), InsecureSkipVerify := \<not> verify\<rparr>)) \<and>
   tlsConfigOf (GetHTTPClient mv cs p NoVerifySSLHostnames []) =
     Some (zeroConfig\<lparr>InsecureSkipVerify := True\<rparr>) \<and>
   MinVersion (zeroConfig\<lparr>InsecureSkipVerify := True\<rparr> :: 'c tls_Config) = 0 \<and>
   CipherSuites (zeroConfig\<lparr>InsecureSkipVerify := True\<rparr> :: 'c tls_Config) = [] \<and>
   RootCAs (zeroConfig\<lparr>InsecureSkipVerify := True\<rparr> :: 'c tls_Config) = None \<and>
   GetHTTPClient mv cs p VerifySSLHostnames [] = Some \<lparr>Transport = None\<rparr>"
  by (simp add: tlsConfigOf_withCerts tlsConfigOf_noCerts_noVerify SecureTLSConfig_def
      zeroConfig_def)
     (simp add: GetHTTPClient_def GetValidatingHTTPClient_def)

theorem baseline_only_with_certs_witness:
  "[''A''] \<noteq> [] \<and>
   (\<exists>cfg. tlsConfigOf (GetHTTPClient 0x0303 [0xC02F] (\<lambda>s. [length s])
             VerifySSLHostnames [''A'']) = Some cfg
      \<and> MinVersion cfg = 0x0303 \<and> CipherSuites cfg = [0xC02F])"
  using baseline_only_with_certs [of "[''A'']" "0x0303" "[0xC02F]" "\<lambda>s. [length s]"
      VerifySSLHostnames]
  by (auto simp: SecureTLSConfig_def)

section \<open>Properties of the dial gate\<close>

lemma IndexByteString_None [simp]: "IndexByteString s c = None \<longleftrightarrow> c \<notin> set s"
  by (simp add: IndexByteString_def)

lemma LastIndexByteString_None [simp]: "LastIndexByteString s c = None \<longleftrightarrow> c \<notin> set s"
  by (simp add: LastIndexByteString_def)

lemma takeWhile_upto:
  "c \<notin> set xs \<Longrightarrow> takeWhile (\<lambda>x. x \<noteq> c) (xs @ c # ys) = xs"
  by (induction xs) auto

lemma IndexByteString_split:
  assumes "IndexByteString s c = Some i"
  shows "\<exists>ys zs. s = ys @ c # zs \<and> c \<notin> set ys \<and> length ys = i"
proof -
  from assms have mem: "c \<in> set s" and i: "i = length (takeWhile (\<lambda>x. x \<noteq> c) s)"
    by (auto simp: IndexByteString_def split: if_splits)
  from split_list_first [OF mem] obtain ys zs where s: "s = ys @ c # zs" and ys: "c \<notin> set ys"
    by blast
  have "i = length ys" unfolding i s using ys by (simp add: takeWhile_upto)
  then show ?thesis using s ys by blast
qed

lemma IndexByteString_append:
  "c \<notin> set xs \<Longrightarrow> IndexByteString (xs @ c # ys) c = Some (length xs)"
  by (simp add: IndexByteString_def takeWhile_upto)

lemma LastIndexByteString_append:
  "c \<notin> set ys \<Longrightarrow> LastIndexByteString (xs @ c # ys) c = Some (length xs)"
  using takeWhile_upto [of c "rev ys" "rev xs"] by (simp add: LastIndexByteString_def)

lemma LastIndexByteString_split:
  assumes "LastIndexByteString s c = Some i"
  shows "\<exists>ys zs. s = ys @ c # zs \<and> c \<notin> set zs \<and> length ys = i"
proof -
  from assms have mem: "c \<in> set s"
    and i: "i = length s - 1 - length (takeWhile (\<lambda>x. x \<noteq> c) (rev s))"
    by (auto simp: LastIndexByteString_def split: if_splits)
  from split_list_last [OF mem] obtain ys zs where s: "s = ys @ c # zs" and zs: "c \<notin> set zs"
    by blast
  have "takeWhile (\<lambda>x. x \<noteq> c) (rev zs @ c # rev ys) = rev zs"
    using zs by (intro takeWhile_upto) simp
  then have "i = length ys" unfolding i s by simp
  then show ?thesis using s zs by blast
qed

lemma SplitHostPort_no_colon:
  "CHR '':'' \<notin> set hostport \<Longrightarrow> SplitHostPort hostport = Inl (AddrError missingPort hostport)"
  by (simp add: SplitHostPort_def LastIndexByteString_def)

lemma SplitHostPort_plain:
  assumes "CHR '':'' \<notin> set host" "CHR '':'' \<notin> set port"
    and "CHR ''['' \<notin> set host" "CHR ''['' \<notin> set port"
    and "CHR '']'' \<notin> set host" "CHR '']'' \<notin> set port"
  shows "SplitHostPort (host @ CHR '':'' # port) = Inr (host, port)"
proof -
  have li: "LastIndexByteString (host @ CHR '':'' # port) CHR '':'' = Some (length host)"
    using assms(2) by (rule LastIndexByteString_append)
  have nb: "take 1 (host @ CHR '':'' # port) \<noteq> ''[''"
    using assms(3) by (cases host) auto
  have "SplitHostPort (host @ CHR '':'' # port) =
      (let h = take (length host) (host @ CHR '':'' # port) in
       if IndexByteString h CHR '':'' \<noteq> None
       then Inl (AddrError tooManyColons (host @ CHR '':'' # port))
       else splitTail (host @ CHR '':'' # port) h (length host) 0 0)"
    unfolding SplitHostPort_def li using nb by simp
  then show ?thesis
    using assms by (simp add: splitTail_def)
qed

lemma SplitHostPort_bracket:
  assumes "CHR ''['' \<notin> set host" "CHR '']'' \<notin> set host"
    and "CHR '':'' \<notin> set port" "CHR ''['' \<notin> set port" "CHR '']'' \<notin> set port"
  shows "SplitHostPort (CHR ''['' # host @ CHR '']'' # CHR '':'' # port) = Inr (host, port)"
proof -
  let ?s = "CHR ''['' # host @ CHR '']'' # CHR '':'' # port"
  have "LastIndexByteString ((CHR ''['' # host @ [CHR '']'']) @ CHR '':'' # port) CHR '':''
      = Some (length (CHR ''['' # host @ [CHR '']'']))"
    using assms(3) by (rule LastIndexByteString_append)
  then have li: "LastIndexByteString ?s CHR '':'' = Some (length host + 2)" by simp
  have "IndexByteString ((CHR ''['' # host) @ CHR '']'' # CHR '':'' # port) CHR '']''
      = Some (length (CHR ''['' # host))"
    using assms(2) by (intro IndexByteString_append) simp
  then have ei: "IndexByteString ?s CHR '']'' = Some (length host + 1)" by simp
  show ?thesis
    using assms by (simp add: SplitHostPort_def li ei splitTail_def)
qed

lemma splitTail_Inr:
  "splitTail hp h i j k = Inr (host, port) \<Longrightarrow> host = h \<and> port = drop (Suc i) hp"
  by (simp add: splitTail_def split: if_splits)

lemma SplitHostPort_form:
  assumes "SplitHostPort hostport = Inr (host, port)"
  shows "hostport = host @ CHR '':'' # port \<or>
         hostport = CHR ''['' # host @ CHR '']'' # CHR '':'' # port"
proof -
  from assms obtain i where li: "LastIndexByteString hostport CHR '':'' = Some i"
    by (cases "LastIndexByteString hostport CHR '':''") (simp_all add: SplitHostPort_def)
  from LastIndexByteString_split [OF li]
  obtain a b where hp: "hostport = a @ CHR '':'' # b" and la: "length a = i"
    by blast
  show ?thesis
  proof (cases "take 1 hostport = ''[''")
    case False
    have "SplitHostPort hostport =
        (if IndexByteString (take i hostport) CHR '':'' \<noteq> None
         then Inl (AddrError tooManyColons hostport)
         else splitTail hostport (take i hostport) i 0 0)"
      unfolding SplitHostPort_def li using False by (simp add: Let_def)
    with assms have "splitTail hostport (take i hostport) i 0 0 = Inr (host, port)"
      by (simp split: if_splits)
    from splitTail_Inr [OF this] have "host = take i hostport" "port = drop (Suc i) hostport"
      by simp_all
    then show ?thesis by (simp add: hp la)
  next
    case True
    have eq1: "SplitHostPort hostport =
      (case IndexByteString hostport CHR '']'' of
         None \<Rightarrow> Inl (AddrError ''missing ']' in address'' hostport)
       | Some end \<Rightarrow>
           if end + 1 = length hostport then Inl (AddrError missingPort hostport)
           else if end + 1 = i
           then splitTail hostport (take (end - 1) (drop 1 hostport)) i 1 (end + 1)
           else if hostport ! (end + 1) = CHR '':''
           then Inl (AddrError tooManyColons hostport)
           else Inl (AddrError missingPort hostport))"
      unfolding SplitHostPort_def li using True by simp
    with assms obtain e where ei: "IndexByteString hostport CHR '']'' = Some e"
      by (cases "IndexByteString hostport CHR '']''") simp_all
    from assms have e: "Suc e = i"
      and st: "splitTail hostport (take (e - 1) (drop 1 hostport)) i 1 (e + 1) = Inr (host, port)"
      unfolding eq1 ei by (simp_all split: if_splits)
    from splitTail_Inr [OF st]
    have host: "host = take (e - 1) (drop 1 hostport)" and port: "port = drop (Suc i) hostport"
      by simp_all
    from IndexByteString_split [OF ei]
    obtain ys zs where he: "hostport = ys @ CHR '']'' # zs" and lys: "length ys = e"
      by blast
    from True he obtain t where t: "ys = CHR ''['' # t" by (cases ys) auto
    have ab: "a @ CHR '':'' # b = (ys @ [CHR '']'']) @ zs" using hp he by simp
    have len: "length a = length (ys @ [CHR '']''])" using la lys e by simp
    from ab len have "a = ys @ [CHR '']''] \<and> CHR '':'' # b = zs"
      by (rule append_eq_append_conv [THEN iffD1, OF disjI1, rotated])
    then have "a = ys @ [CHR '']'']" and "zs = CHR '':'' # b" by simp_all
    then have hpeq: "hostport = CHR ''['' # t @ CHR '']'' # CHR '':'' # b"
      using he t by simp
    have e2: "e = Suc (length t)" using lys t by simp
    have i2: "i = Suc (Suc (length t))" using e e2 by simp
    have "host = t" "port = b"
      unfolding host port e2 i2 hpeq by simp_all
    with hpeq show ?thesis by simp
  qed
qed

lemma To4_16:
  "To4 [a0, a1, a2, a3, a4, a5, a6, a7, a8, a9, a10, a11, a12, a13, a14, a15] =
     (if [a0, a1, a2, a3, a4, a5, a6, a7, a8, a9, a10, a11] = v4InV6Prefix
      then [a12, a13, a14, a15] else [])"
  by (simp add: To4_def isZeros_def v4InV6Prefix_def)

lemma IsLoopback_16:
  "IsLoopback [a0, a1, a2, a3, a4, a5, a6, a7, a8, a9, a10, a11, a12, a13, a14, a15] \<longleftrightarrow>
     ([a0, a1, a2, a3, a4, a5, a6, a7, a8, a9, a10, a11] = v4InV6Prefix \<and> a12 = 127) \<or>
     [a0, a1, a2, a3, a4, a5, a6, a7, a8, a9, a10, a11, a12, a13, a14, a15] = IPv6loopback"
proof (cases "[a0, a1, a2, a3, a4, a5, a6, a7, a8, a9, a10, a11] = v4InV6Prefix")
  case True
  then have "a10 = 0xff" by (simp add: v4InV6Prefix_def)
  then have "[a0, a1, a2, a3, a4, a5, a6, a7, a8, a9, a10, a11, a12, a13, a14, a15]
      \<noteq> IPv6loopback"
    by (simp add: IPv6loopback_def)
  then show ?thesis
    using True unfolding IsLoopback_def To4_16 Let_def by simp
next
  case False
  then show ?thesis
    unfolding IsLoopback_def To4_16 Let_def by (simp add: Equal_def IPv6loopback_def)
qed

lemma explode16:
  assumes "length (ip :: 'a list) = 16"
  shows "ip = [ip ! 0, ip ! 1, ip ! 2, ip ! 3, ip ! 4, ip ! 5, ip ! 6, ip ! 7, ip ! 8,
               ip ! 9, ip ! 10, ip ! 11, ip ! 12, ip ! 13, ip ! 14, ip ! 15]"
proof -
  have "map ((!) ip) [0..<16] = ip" using assms map_nth [of ip] by simp
  moreover have "[0..<16] = [0, 1, 2, 3, 4, 5, 6, 7, 8, 9, 10, 11, 12, 13, 14, 15::nat]"
    by (simp add: upt_rec)
  ultimately show ?thesis by simp
qed

lemma IsLoopback_iff:
  "IsLoopback ip \<longleftrightarrow>
     (length ip = 4 \<and> ip ! 0 = 127) \<or>
     (length ip = 16 \<and> take 12 ip = v4InV6Prefix \<and> ip ! 12 = 127) \<or>
     ip = IPv6loopback"
proof -
  consider "length ip = 4" | "length ip = 16" | "length ip \<noteq> 4 \<and> length ip \<noteq> 16" by blast
  then show ?thesis
  proof cases
    case 1
    then have "ip \<noteq> []" by auto
    with 1 show ?thesis
      by (auto simp: IsLoopback_def To4_def IPv6loopback_def)
  next
    case 2
    obtain l where l: "l = [ip ! 0, ip ! 1, ip ! 2, ip ! 3, ip ! 4, ip ! 5, ip ! 6, ip ! 7,
        ip ! 8, ip ! 9, ip ! 10, ip ! 11, ip ! 12, ip ! 13, ip ! 14, ip ! 15]" by simp
    have ip: "ip = l" unfolding l using explode16 [OF 2] .
    have "IsLoopback l \<longleftrightarrow>
      (length l = 4 \<and> l ! 0 = 127) \<or>
      (length l = 16 \<and> take 12 l = v4InV6Prefix \<and> l ! 12 = 127) \<or>
      l = IPv6loopback"
      unfolding l IsLoopback_16 by simp
    then show ?thesis unfolding ip .
  next
    case 3
    then show ?thesis
      by (auto simp: IsLoopback_def To4_def IPv6loopback_def Equal_def)
  qed
qed

subsection \<open>Claims about the dial gate\<close>

text \<open>
  C3. The switch \<open>OutgoingAccessAllowed\<close> starts as true. A dial fails with
  \<open>ConnectionRefused\<close> exactly when the switch is false and the address is not local;
  in every other case it proceeds. With the switch at its initial value every dial
  proceeds.
\<close>

theorem dial_refused_iff:
  "OutgoingAccessAllowed initialDialGateState = True \<and>
   (AllowDial st P address = Inl ConnectionRefused
      \<longleftrightarrow> \<not> OutgoingAccessAllowed st \<and> \<not> isLocalAddr P address) \<and>
   (AllowDial st P address = Inr ()
      \<longleftrightarrow> \<not> (\<not> OutgoingAccessAllowed st \<and> \<not> isLocalAddr P address)) \<and>
   AllowDial initialDialGateState P address = Inr ()"
  by (simp add: AllowDial_def initialDialGateState_def)

theorem dial_refused_iff_witness:
  "AllowDial \<lparr>OutgoingAccessAllowed = False\<rparr> (\<lambda>h. []) ''93.184.216.34:80''
     = Inl ConnectionRefused \<and>
   AllowDial \<lparr>OutgoingAccessAllowed = False\<rparr> (\<lambda>h. []) ''localhost:8080'' = Inr ()"
proof -
  have a: "\<not> isLocalAddr (\<lambda>h. []) ''93.184.216.34:80''"
    by (simp add: isLocalAddr_def SplitHostPort_def LastIndexByteString_def
        IndexByteString_def splitTail_def IsLoopback_def To4_def Equal_def IPv6loopback_def)
  have b: "isLocalAddr (\<lambda>h. []) ''localhost:8080''"
    by (simp add: isLocalAddr_def SplitHostPort_def LastIndexByteString_def
        IndexByteString_def splitTail_def)
  show ?thesis
    using dial_refused_iff [of "\<lparr>OutgoingAccessAllowed = False\<rparr>" "\<lambda>h. []" "''93.184.216.34:80''"]
      dial_refused_iff [of "\<lparr>OutgoingAccessAllowed = False\<rparr>" "\<lambda>h. []" "''localhost:8080''"]
      a b
    by simp
qed

text \<open>
  C7. When \<open>SplitHostPort\<close> splits the address into host and port, the address is
  \<open>host:port\<close> or \<open>[host]:port\<close>, and \<open>isLocalAddr\<close> is true exactly when the host is
  the literal \<open>localhost\<close> or parses to a loopback IP: an address of 127.0.0.0/8 (as
  four bytes or in the 16-byte IPv4-in-IPv6 form) or \<open>::1\<close>. A host other than
  \<open>localhost\<close> that does not parse gives false. An address that \<open>SplitHostPort\<close>
  rejects gives false, and so does every address with no colon (no port). Addresses
  \<open>h:p\<close> and \<open>[h]:p\<close> without stray colons and brackets are split into \<open>h\<close> and \<open>p\<close>.
\<close>

theorem isLocalAddr_loopback_only:
  "(SplitHostPort addr = Inr (host, port) \<longrightarrow>
      (addr = host @ CHR '':'' # port \<or> addr = CHR ''['' # host @ CHR '']'' # CHR '':'' # port) \<and>
      (isLocalAddr P addr \<longleftrightarrow>
         host = ''localhost'' \<or>
         (length (P host) = 4 \<and> P host ! 0 = 127) \<or>
         (length (P host) = 16 \<and> take 12 (P host) = v4InV6Prefix \<and> P host ! 12 = 127) \<or>
         P host = IPv6loopback)) \<and>
   (SplitHostPort addr = Inr (host, port) \<and> host \<noteq> ''localhost'' \<and> P host = []
      \<longrightarrow> \<not> isLocalAddr P addr) \<and>
   ((\<exists>e. SplitHostPort addr = Inl e) \<longrightarrow> \<not> isLocalAddr P addr) \<and>
   (CHR '':'' \<notin> set addr \<longrightarrow> \<not> isLocalAddr P addr) \<and>
   (set h \<inter> {CHR '':'', CHR ''['', CHR '']''} = {} \<and>
    set p \<inter> {CHR '':'', CHR ''['', CHR '']''} = {} \<longrightarrow>
      SplitHostPort (h @ CHR '':'' # p) = Inr (h, p)) \<and>
   (set h' \<inter> {CHR ''['', CHR '']''} = {} \<and>
    set p \<inter> {CHR '':'', CHR ''['', CHR '']''} = {} \<longrightarrow>
      SplitHostPort (CHR ''['' # h' @ CHR '']'' # CHR '':'' # p) = Inr (h', p))"
proof -
  have 1: "isLocalAddr P addr \<longleftrightarrow>
         host = ''localhost'' \<or>
         (length (P host) = 4 \<and> P host ! 0 = 127) \<or>
         (length (P host) = 16 \<and> take 12 (P host) = v4InV6Prefix \<and> P host ! 12 = 127) \<or>
         P host = IPv6loopback"
    if "SplitHostPort addr = Inr (host, port)"
    using that IsLoopback_iff [of "P host"] by (simp add: isLocalAddr_def)
  have 2: "\<not> isLocalAddr P addr"
    if "SplitHostPort addr = Inr (host, port)" "host \<noteq> ''localhost''" "P host = []"
    using 1 [OF that(1)] that(2,3) by (simp add: IPv6loopback_def)
  have 3: "\<not> isLocalAddr P addr" if "SplitHostPort addr = Inl e" for e
    using that by (simp add: isLocalAddr_def)
  have 4: "\<not> isLocalAddr P addr" if "CHR '':'' \<notin> set addr"
    using SplitHostPort_no_colon [OF that] by (simp add: isLocalAddr_def)
  have 5: "SplitHostPort (h @ CHR '':'' # p) = Inr (h, p)"
    if "set h \<inter> {CHR '':'', CHR ''['', CHR '']''} = {}"
       "set p \<inter> {CHR '':'', CHR ''['', CHR '']''} = {}"
    using that by (intro SplitHostPort_plain) auto
  have 6: "SplitHostPort (CHR ''['' # h' @ CHR '']'' # CHR '':'' # p) = Inr (h', p)"
    if "set h' \<inter> {CHR ''['', CHR '']''} = {}"
       "set p \<inter> {CHR '':'', CHR ''['', CHR '']''} = {}"
    using that by (intro SplitHostPort_bracket) auto
  show ?thesis
    using 1 2 3 4 5 6 SplitHostPort_form [of addr host port] by blast
qed

theorem isLocalAddr_loopback_only_witness:
  "SplitHostPort ''127.0.0.1:8080'' = Inr (''127.0.0.1'', ''8080'') \<and>
   isLocalAddr (\<lambda>h. if h = ''127.0.0.1'' then v4InV6Prefix @ [127, 0, 0, 1] else [])
     ''127.0.0.1:8080'' \<and>
   SplitHostPort ''[::1]:443'' = Inr (''::1'', ''443'') \<and>
   CHR '':'' \<notin> set ''bad-addr'' \<and>
   \<not> isLocalAddr (\<lambda>h. []) ''bad-addr''"
proof -
  let ?P = "\<lambda>h. if h = ''127.0.0.1'' then v4InV6Prefix @ [127, 0, 0, 1] else []"
  note t = isLocalAddr_loopback_only [where addr = "''127.0.0.1:8080''"
      and host = "''127.0.0.1''" and port = "''8080''" and P = ?P
      and h = "''127.0.0.1''" and p = "''8080''" and h' = "''::1''"]
  note u = isLocalAddr_loopback_only [where addr = "''bad-addr''"
      and host = "[]" and port = "[]" and P = "\<lambda>h. []"
      and h = "[]" and p = "''443''" and h' = "''::1''"]
  from t have s1: "SplitHostPort ''127.0.0.1:8080'' = Inr (''127.0.0.1'', ''8080'')"
    by simp
  from u have s2: "SplitHostPort ''[::1]:443'' = Inr (''::1'', ''443'')"
    by simp
  from t s1 have l1: "isLocalAddr ?P ''127.0.0.1:8080''"
    by (simp add: v4InV6Prefix_def)
  from u have l2: "\<not> isLocalAddr (\<lambda>h. []) ''bad-addr''"
    by simp
  show ?thesis using s1 s2 l1 l2 by simp
qed

section \<open>Properties of the Basic Auth codec\<close>

lemma length_encodeStd: "length encodeStd = 64"
  by (simp add: encodeStd_def)

lemma distinct_encodeStd: "distinct encodeStd"
  by (simp add: encodeStd_def)

lemma IndexByteString_nth:
  assumes "distinct xs" "n < length xs"
  shows "IndexByteString xs (xs ! n) = Some n"
proof -
  have xs: "xs = take n xs @ xs ! n # drop (Suc n) xs"
    using assms(2) by (simp add: id_take_nth_drop)
  have "xs ! n \<notin> set (take n xs)"
    using assms by (metis xs distinct_append distinct.simps(2) disjoint_iff list.set_intros(1) not_distinct_conv_prefix append_Cons)
  then have "IndexByteString (take n xs @ xs ! n # drop (Suc n) xs) (xs ! n) = Some (length (take n xs))"
    by (rule IndexByteString_append)
  then show ?thesis using assms(2) xs by (metis length_take min.absorb2 less_imp_le)
qed

lemma decodeMap_encode: "decodeMap (encode v) = Some (v mod 64)"
  unfolding decodeMap_def encode_def
  by (rule IndexByteString_nth) (simp_all add: distinct_encodeStd length_encodeStd)

lemma encode_in: "encode v \<in> set encodeStd"
  unfolding encode_def by (rule nth_mem) (simp add: length_encodeStd)


lemma sextets:
  fixes val :: nat
  assumes "val < 16777216"
  shows "(val div 262144) mod 64 * 262144 + (val div 4096) mod 64 * 4096
           + (val div 64) mod 64 * 64 + val mod 64 = val"
proof -
  have a: "val = val div 64 * 64 + val mod 64" by simp
  have "val div 4096 = val div 64 div 64" by (simp add: div_mult2_eq)
  then have b: "val div 64 = val div 4096 * 64 + (val div 64) mod 64" by simp
  have "val div 262144 = val div 4096 div 64" by (simp add: div_mult2_eq)
  then have c: "val div 4096 = val div 262144 * 64 + (val div 4096) mod 64" by simp
  have "val div 262144 < 64" using assms by (simp add: less_mult_imp_div_less)
  then have d: "(val div 262144) mod 64 = val div 262144" by simp
  show ?thesis using a b c unfolding d by linarith
qed

lemma bytes_3:
  fixes x y z :: nat
  assumes "x < 256" "y < 256" "z < 256"
  shows "(x * 65536 + y * 256 + z) div 65536 = x"
    and "(x * 65536 + y * 256 + z) div 256 mod 256 = y"
    and "(x * 65536 + y * 256 + z) mod 256 = z"
proof -
  have "y * 256 + z < 65536" using assms by simp
  then show "(x * 65536 + y * 256 + z) div 65536 = x"
    by (simp add: add.assoc)
  have "(x * 65536 + y * 256 + z) div 256 = x * 256 + y"
    using assms by simp
  then show "(x * 65536 + y * 256 + z) div 256 mod 256 = y"
    using assms by simp
  have e: "x * 65536 + y * 256 + z = z + (x * 256 + y) * 256" by simp
  show "(x * 65536 + y * 256 + z) mod 256 = z"
    unfolding e by (simp only: mod_mult_self1 mod_less [OF assms(3)])
qed


lemma val_bound:
  "of_char a * 65536 + of_char b * 256 + (of_char c :: nat) < 16777216"
proof -
  have "of_char a < (256 :: nat)" "of_char b < (256 :: nat)" "of_char c < (256 :: nat)"
    by simp_all
  then show ?thesis by linarith
qed

lemma quantum_bytes:
  fixes a b c :: char
  defines "val \<equiv> of_char a * 65536 + of_char b * 256 + (of_char c :: nat)"
  defines "V \<equiv> (val div 262144) mod 64 * 262144 + (val div 4096) mod 64 * 4096
                  + (val div 64) mod 64 * 64 + val mod 64"
  shows "char_of (V div 65536) = a" "char_of (V div 256) = b" "char_of V = c"
proof -
  have V: "V = val" unfolding V_def using val_bound [of a b c] unfolding val_def [symmetric]
    by (rule sextets)
  have lt: "of_char a < (256 :: nat)" "of_char b < (256 :: nat)" "of_char c < (256 :: nat)"
    by simp_all
  note bs = bytes_3 [OF lt, folded val_def]
  show "char_of (V div 65536) = a" unfolding V bs(1) by simp
  have "char_of (val div 256) = char_of (val div 256 mod 256)" by simp
  then show "char_of (V div 256) = b" unfolding V bs(2) by simp
  have "char_of val = char_of (val mod 256)" by simp
  then show "char_of V = c" unfolding V bs(3) by simp
qed

lemma encode_not_pad: "encode v \<noteq> padChar"
proof -
  have "padChar \<notin> set encodeStd" by (simp add: encodeStd_def padChar_def)
  with encode_in [of v] show ?thesis by metis
qed

lemma decode_quantum3:
  "decodeQuanta
     (encode ((of_char a * 65536 + of_char b * 256 + of_char c) div 262144) #
      encode ((of_char a * 65536 + of_char b * 256 + of_char c) div 4096) #
      encode ((of_char a * 65536 + of_char b * 256 + of_char c) div 64) #
      encode (of_char a * 65536 + of_char b * 256 + of_char c) # rest) =
   map_option ((@) [a, b, c]) (decodeQuanta rest)"
  using quantum_bytes [of a b c]
  by (simp add: decodeMap_encode encode_not_pad Let_def)

lemma mod64_zero:
  "(x * 65536 + y * 256) mod 64 = (0 :: nat)"
  "(x * 65536) mod 64 = (0 :: nat)"
  "(x * 65536) div 64 mod 64 = (0 :: nat)"
proof -
  have "x * 65536 + y * 256 = (x * 1024 + y * 4) * 64" by simp
  then show "(x * 65536 + y * 256) mod 64 = 0" by (simp only: mod_mult_self2_is_0)
  have e: "x * 65536 = (x * 1024) * 64" by simp
  then show "(x * 65536) mod 64 = 0" by (simp only: mod_mult_self2_is_0)
  have "(x * 65536) div 64 = (x * 16) * 64" unfolding e by simp
  then show "(x * 65536) div 64 mod 64 = 0" by (simp only: mod_mult_self2_is_0)
qed

lemma quantum_bytes2:
  fixes a b :: char
  defines "val \<equiv> of_char a * 65536 + of_char b * (256 :: nat)"
  defines "V \<equiv> (val div 262144) mod 64 * 262144 + (val div 4096) mod 64 * 4096
                  + (val div 64) mod 64 * 64"
  shows "char_of (V div 65536) = a" "char_of (V div 256) = b"
proof -
  have z: "of_char (CHR 0x00) = (0 :: nat)" by simp
  have v: "of_char a * 65536 + of_char b * 256 + (0 :: nat) = val" by (simp add: val_def)
  have V: "val div 262144 mod 64 * 262144 + val div 4096 mod 64 * 4096
             + val div 64 mod 64 * 64 + val mod 64 = V"
    unfolding V_def using mod64_zero(1) [of "of_char a" "of_char b"]
    by (simp add: val_def)
  from quantum_bytes(1,2) [of a b "CHR 0x00", unfolded z v V]
  show "char_of (V div 65536) = a" "char_of (V div 256) = b" .
qed

lemma quantum_bytes1:
  fixes a :: char
  defines "val \<equiv> of_char a * (65536 :: nat)"
  defines "V \<equiv> (val div 262144) mod 64 * 262144 + (val div 4096) mod 64 * 4096"
  shows "char_of (V div 65536) = a"
proof -
  have z: "of_char (CHR 0x00) = (0 :: nat)" by simp
  have v: "of_char a * 65536 + 0 * 256 + (0 :: nat) = val" by (simp add: val_def)
  have V: "val div 262144 mod 64 * 262144 + val div 4096 mod 64 * 4096
             + val div 64 mod 64 * 64 + val mod 64 = V"
    unfolding V_def using mod64_zero(2,3) [of "of_char a"]
    by (simp add: val_def)
  from quantum_bytes(1) [of a "CHR 0x00" "CHR 0x00", unfolded z v V]
  show "char_of (V div 65536) = a" .
qed

lemma decode_quantum2:
  "decodeQuanta
     [encode ((of_char a * 65536 + of_char b * 256) div 262144),
      encode ((of_char a * 65536 + of_char b * 256) div 4096),
      encode ((of_char a * 65536 + of_char b * 256) div 64), padChar] = Some [a, b]"
  using quantum_bytes2 [of a b]
  by (simp add: decodeMap_encode encode_not_pad Let_def)

lemma decode_quantum1:
  "decodeQuanta
     [encode ((of_char a * 65536) div 262144),
      encode ((of_char a * 65536) div 4096), padChar, padChar] = Some [a]"
  using quantum_bytes1 [of a]
  by (simp add: decodeMap_encode encode_not_pad Let_def)

lemma decodeQuanta_EncodeToString: "decodeQuanta (EncodeToString src) = Some src"
proof (induction src rule: EncodeToString.induct)
  case 1
  show ?case by simp
next
  case (2 a)
  show ?case using decode_quantum1 [of a] by (simp add: Let_def)
next
  case (3 a b)
  show ?case using decode_quantum2 [of a b] by (simp add: Let_def)
next
  case (4 a b c src)
  show ?case
    using decode_quantum3 [of a b c "EncodeToString src"] 4 by (simp add: Let_def)
qed

lemma spaceWidth_plain:
  assumes "\<not> startsSpace c"
  shows "spaceWidth (c # s) = 0"
proof -
  have ne: "\<forall>e\<in>set spaceRunes. e \<noteq> []" by (simp add: spaceRunes_def)
  have "\<not> prefix e (c # s)" if "e \<in> set spaceRunes" for e
  proof
    assume p: "prefix e (c # s)"
    from ne that obtain x e' where e: "e = x # e'" by (cases e) auto
    with p have "x = c" by simp
    with e that have "c \<in> set (map hd spaceRunes)" by force
    with assms show False by (simp add: startsSpace_def)
  qed
  then have "find (\<lambda>e. prefix e (c # s)) spaceRunes = None"
    by (simp add: find_None_iff)
  then show ?thesis by (simp add: spaceWidth_def)
qed

lemma spaceWidth_ascii:
  assumes "asciiSpace c"
  shows "spaceWidth (c # s) = 1"
proof -
  from assms consider "c = CHR 0x09" | "c = CHR 0x0A" | "c = CHR 0x0B" | "c = CHR 0x0C"
    | "c = CHR 0x0D" | "c = CHR 0x20"
    by (auto simp: asciiSpace_def)
  then show ?thesis
    by cases (simp_all add: spaceWidth_def spaceRunes_def)
qed

lemma fieldsFrom_plain:
  "list_all (\<lambda>c. \<not> startsSpace c) xs \<Longrightarrow> fieldsFrom cur (xs @ s) = fieldsFrom (cur @ xs) s"
  by (induction xs arbitrary: cur) (simp_all add: spaceWidth_plain)

lemma fieldsFrom_space:
  "asciiSpace w \<Longrightarrow> fieldsFrom cur (w # s) = flush cur @ fieldsFrom [] s"
  by (simp add: spaceWidth_ascii)

lemma fieldsFrom_spaces_skip:
  "list_all asciiSpace ws \<Longrightarrow> fieldsFrom [] (ws @ s) = fieldsFrom [] s"
  by (induction ws) (simp_all add: spaceWidth_ascii flush_def)

lemma fieldsFrom_spaces:
  assumes "list_all asciiSpace ws" "ws \<noteq> []"
  shows "fieldsFrom cur (ws @ s) = flush cur @ fieldsFrom [] s"
proof -
  from assms obtain w ws' where ws: "ws = w # ws'" and w: "asciiSpace w"
    and ws': "list_all asciiSpace ws'"
    by (cases ws) auto
  have "fieldsFrom cur (ws @ s) = flush cur @ fieldsFrom [] (ws' @ s)"
    unfolding ws using fieldsFrom_space [OF w] by simp
  then show ?thesis using fieldsFrom_spaces_skip [OF ws'] by simp
qed

lemma Fields_two_tokens:
  assumes a: "list_all (\<lambda>c. \<not> startsSpace c) a" "a \<noteq> []"
    and b: "list_all (\<lambda>c. \<not> startsSpace c) b" "b \<noteq> []"
    and ws: "list_all asciiSpace ws0" "list_all asciiSpace ws1" "ws1 \<noteq> []"
      "list_all asciiSpace ws2"
  shows "Fields (ws0 @ a @ ws1 @ b @ ws2) = [a, b]"
proof -
  have "Fields (ws0 @ a @ ws1 @ b @ ws2) = fieldsFrom [] (a @ ws1 @ b @ ws2)"
    unfolding Fields_def by (rule fieldsFrom_spaces_skip [OF ws(1)])
  also have "\<dots> = fieldsFrom a (ws1 @ b @ ws2)"
    using fieldsFrom_plain [OF a(1), of "[]"] by simp
  also have "\<dots> = [a] @ fieldsFrom [] (b @ ws2)"
    using fieldsFrom_spaces [OF ws(2,3)] a(2) by (simp add: flush_def)
  also have "fieldsFrom [] (b @ ws2) = fieldsFrom b ws2"
    using fieldsFrom_plain [OF b(1), of "[]"] by simp
  also have "fieldsFrom b ws2 = [b]"
  proof (cases "ws2 = []")
    case True
    then show ?thesis using b(2) by (simp add: flush_def)
  next
    case False
    from fieldsFrom_spaces [OF ws(4) False, of b "[]"] show ?thesis
      using b(2) by (simp add: flush_def)
  qed
  finally show ?thesis by simp
qed

lemma b64_chars:
  "c \<in> set encodeStd \<or> c = padChar \<Longrightarrow>
   \<not> startsSpace c \<and> c \<noteq> CHR 0x0D \<and> c \<noteq> CHR 0x0A"
  by (auto simp: encodeStd_def padChar_def startsSpace_def spaceRunes_def)

lemma EncodeToString_chars:
  "list_all (\<lambda>c. c \<in> set encodeStd \<or> c = padChar) (EncodeToString src)"
  by (induction src rule: EncodeToString.induct) (simp_all add: Let_def encode_in)

lemma EncodeToString_plain:
  "list_all (\<lambda>c. \<not> startsSpace c) (EncodeToString src)"
  using EncodeToString_chars [of src] b64_chars by (simp add: list_all_iff)

lemma EncodeToString_no_newline:
  "filter (\<lambda>c. c \<noteq> CHR 0x0D \<and> c \<noteq> CHR 0x0A) (EncodeToString src) = EncodeToString src"
  using EncodeToString_chars [of src] b64_chars by (simp add: list_all_iff filter_id_conv)

lemma EncodeToString_empty: "EncodeToString src = [] \<longleftrightarrow> src = []"
  by (induction src rule: EncodeToString.induct) (simp_all add: Let_def)

lemma DecodeString_EncodeToString: "DecodeString (EncodeToString src) = Some src"
  by (simp add: DecodeString_def EncodeToString_no_newline decodeQuanta_EncodeToString)

lemma SplitN_2:
  "SplitN s sep 2 =
     (case IndexByteString s sep of None \<Rightarrow> [s] | Some m \<Rightarrow> [take m s, drop (m + 1) s])"
  by (simp add: numeral_2_eq_2 del: IndexByteString_None split: option.splits)

lemma SplitN_first:
  "sep \<notin> set u \<Longrightarrow> SplitN (u @ sep # p) sep 2 = [u, p]"
  by (simp add: SplitN_2 IndexByteString_append)

lemma HeaderGet_BasicAuthHeader:
  "HeaderGet (BasicAuthHeader u p) ''Authorization''
     = ''Basic'' @ '' '' @ EncodeToString (u @ CHR '':'' # p)"
  by (simp add: HeaderGet_def BasicAuthHeader_def Let_def)

lemma plain_Basic: "list_all (\<lambda>c. \<not> startsSpace c) ''Basic''"
  by (simp add: startsSpace_def spaceRunes_def)

lemma Fields_Basic:
  assumes "list_all (\<lambda>c. \<not> startsSpace c) tok" "tok \<noteq> []"
    and "list_all asciiSpace ws0" "list_all asciiSpace ws1" "ws1 \<noteq> []" "list_all asciiSpace ws2"
  shows "Fields (ws0 @ ''Basic'' @ ws1 @ tok @ ws2) = [''Basic'', tok]"
  using Fields_two_tokens [OF plain_Basic _ assms] by simp

lemma ParseBasicAuthHeader_parts:
  assumes "Fields (HeaderGet h ''Authorization'') = [''Basic'', tok]"
  shows "ParseBasicAuthHeader h =
     (case DecodeString tok of
        None \<Rightarrow> Inl (Errorf ''invalid HTTP auth encoding'')
      | Some challenge \<Rightarrow>
          (case IndexByteString challenge CHR '':'' of
             None \<Rightarrow> Inl (Errorf ''invalid HTTP auth contents'')
           | Some m \<Rightarrow> Inr (take m challenge, drop (m + 1) challenge)))"
  by (simp add: ParseBasicAuthHeader_def assms Let_def SplitN_2 del: IndexByteString_None
      split: option.splits)

lemma ParseBasicAuthHeader_bad_parts:
  assumes "length (Fields (HeaderGet h ''Authorization'')) \<noteq> 2
           \<or> Fields (HeaderGet h ''Authorization'') ! 0 \<noteq> ''Basic''"
  shows "ParseBasicAuthHeader h = Inl (Errorf ''invalid or missing HTTP auth header'')"
  using assms by (simp add: ParseBasicAuthHeader_def Let_def)

subsection \<open>Claims about the Basic Auth codec\<close>

text \<open>
  C4. Round trip: for a user name without a colon and any password, colons allowed,
  \<open>ParseBasicAuthHeader\<close> applied to the header made by \<open>BasicAuthHeader\<close> succeeds and
  returns the user name and the password.
\<close>

theorem basic_auth_round_trip:
  "CHR '':'' \<notin> set u \<Longrightarrow> ParseBasicAuthHeader (BasicAuthHeader u p) = Inr (u, p)"
proof -
  assume u: "CHR '':'' \<notin> set u"
  let ?e = "EncodeToString (u @ CHR '':'' # p)"
  have ne: "?e \<noteq> []" by (simp add: EncodeToString_empty)
  have sp: "list_all asciiSpace '' ''" by (simp add: asciiSpace_def)
  have "Fields ([] @ ''Basic'' @ '' '' @ ?e @ []) = [''Basic'', ?e]"
    by (rule Fields_Basic [OF EncodeToString_plain ne _ sp]) simp_all
  then have f: "Fields (HeaderGet (BasicAuthHeader u p) ''Authorization'') = [''Basic'', ?e]"
    by (simp add: HeaderGet_BasicAuthHeader)
  show ?thesis
    unfolding ParseBasicAuthHeader_parts [OF f] DecodeString_EncodeToString
    using u by (simp add: IndexByteString_append)
qed

theorem basic_auth_round_trip_witness:
  "CHR '':'' \<notin> set ''alice'' \<and>
   HeaderGet (BasicAuthHeader ''alice'' ''pa:ss'') ''Authorization'' = ''Basic YWxpY2U6cGE6c3M='' \<and>
   ParseBasicAuthHeader (BasicAuthHeader ''alice'' ''pa:ss'') = Inr (''alice'', ''pa:ss'')"
proof -
  have "HeaderGet (BasicAuthHeader ''alice'' ''pa:ss'') ''Authorization''
      = ''Basic YWxpY2U6cGE6c3M=''"
    unfolding HeaderGet_BasicAuthHeader by (simp add: encode_def encodeStd_def padChar_def)
  then show ?thesis
    using basic_auth_round_trip [of "''alice''" "''pa:ss''"] by simp
qed

lemma IndexByteString_Some_iff:
  "IndexByteString s c = Some m \<longleftrightarrow>
     (\<exists>ys zs. s = ys @ c # zs \<and> c \<notin> set ys \<and> length ys = m)"
proof
  assume "IndexByteString s c = Some m"
  then show "\<exists>ys zs. s = ys @ c # zs \<and> c \<notin> set ys \<and> length ys = m"
    by (rule IndexByteString_split)
next
  assume "\<exists>ys zs. s = ys @ c # zs \<and> c \<notin> set ys \<and> length ys = m"
  then obtain ys zs where "s = ys @ c # zs" "c \<notin> set ys" "length ys = m" by blast
  then show "IndexByteString s c = Some m" by (simp add: IndexByteString_append)
qed

lemma ParseBasicAuthHeader_Inr_iff:
  "ParseBasicAuthHeader h = Inr (u, p) \<longleftrightarrow>
     (\<exists>tok. Fields (HeaderGet h ''Authorization'') = [''Basic'', tok]
        \<and> DecodeString tok = Some (u @ CHR '':'' # p) \<and> CHR '':'' \<notin> set u)"
proof
  assume r: "ParseBasicAuthHeader h = Inr (u, p)"
  let ?parts = "Fields (HeaderGet h ''Authorization'')"
  have ok: "length ?parts = 2 \<and> ?parts ! 0 = ''Basic''"
  proof (rule ccontr)
    assume "\<not> ?thesis"
    then have "length ?parts \<noteq> 2 \<or> ?parts ! 0 \<noteq> ''Basic''" by blast
    from ParseBasicAuthHeader_bad_parts [OF this] r show False by simp
  qed
  then obtain x tok where parts: "?parts = [x, tok]"
    by (cases ?parts; cases "tl ?parts") auto
  with ok have f: "?parts = [''Basic'', tok]" by simp
  from r obtain ch m where d: "DecodeString tok = Some ch"
    and i: "IndexByteString ch CHR '':'' = Some m"
    and u: "u = take m ch" and p: "p = drop (m + 1) ch"
    unfolding ParseBasicAuthHeader_parts [OF f]
    by (auto simp del: IndexByteString_None split: option.splits)
  from IndexByteString_split [OF i] obtain ys zs
    where "ch = ys @ CHR '':'' # zs" "CHR '':'' \<notin> set ys" "length ys = m" by blast
  with u p have "ch = u @ CHR '':'' # p" "CHR '':'' \<notin> set u" by simp_all
  with f d show "\<exists>tok. ?parts = [''Basic'', tok]
        \<and> DecodeString tok = Some (u @ CHR '':'' # p) \<and> CHR '':'' \<notin> set u"
    by blast
next
  assume "\<exists>tok. Fields (HeaderGet h ''Authorization'') = [''Basic'', tok]
        \<and> DecodeString tok = Some (u @ CHR '':'' # p) \<and> CHR '':'' \<notin> set u"
  then obtain tok where f: "Fields (HeaderGet h ''Authorization'') = [''Basic'', tok]"
    and d: "DecodeString tok = Some (u @ CHR '':'' # p)" and u: "CHR '':'' \<notin> set u"
    by blast
  show "ParseBasicAuthHeader h = Inr (u, p)"
    unfolding ParseBasicAuthHeader_parts [OF f] d using u
    by (simp add: IndexByteString_append)
qed

lemma ParseBasicAuthHeader_Inl_iff:
  "(\<exists>e. ParseBasicAuthHeader h = Inl e) \<longleftrightarrow>
     length (Fields (HeaderGet h ''Authorization'')) \<noteq> 2 \<or>
     Fields (HeaderGet h ''Authorization'') ! 0 \<noteq> ''Basic'' \<or>
     DecodeString (Fields (HeaderGet h ''Authorization'') ! 1) = None \<or>
     (\<exists>payload. DecodeString (Fields (HeaderGet h ''Authorization'') ! 1) = Some payload
        \<and> CHR '':'' \<notin> set payload)"
proof (cases "length (Fields (HeaderGet h ''Authorization'')) \<noteq> 2
           \<or> Fields (HeaderGet h ''Authorization'') ! 0 \<noteq> ''Basic''")
  case True
  from ParseBasicAuthHeader_bad_parts [OF True] True show ?thesis by auto
next
  case False
  let ?parts = "Fields (HeaderGet h ''Authorization'')"
  from False obtain x tok where parts: "?parts = [x, tok]"
    by (cases ?parts; cases "tl ?parts") auto
  with False have f: "?parts = [''Basic'', tok]" by simp
  show ?thesis
    unfolding ParseBasicAuthHeader_parts [OF f] f
    by (auto simp del: IndexByteString_None simp: IndexByteString_def split: option.splits)
qed

text \<open>
  C5. \<open>ParseBasicAuthHeader\<close> returns an error exactly when the value of the
  \<open>Authorization\<close> header does not split into exactly two white-space-separated tokens,
  or the first token is not \<open>Basic\<close>, or the second token is not valid base64, or the
  decoded payload has no colon; an absent header and an empty one are cases of the
  first. It succeeds with user name \<open>u\<close> and password \<open>p\<close> exactly when the tokens are
  \<open>Basic\<close> and the base64 of a payload \<open>u:p\<close> in which \<open>u\<close> has no colon: the payload
  is split at its first colon and the password keeps every later colon.
\<close>

theorem parse_fails_exactly:
  "((\<exists>e. ParseBasicAuthHeader h = Inl e) \<longleftrightarrow>
      length (Fields (HeaderGet h ''Authorization'')) \<noteq> 2 \<or>
      Fields (HeaderGet h ''Authorization'') ! 0 \<noteq> ''Basic'' \<or>
      DecodeString (Fields (HeaderGet h ''Authorization'') ! 1) = None \<or>
      (\<exists>payload. DecodeString (Fields (HeaderGet h ''Authorization'') ! 1) = Some payload
         \<and> CHR '':'' \<notin> set payload)) \<and>
   (h ''Authorization'' = None \<or> HeaderGet h ''Authorization'' = [] \<longrightarrow>
      ParseBasicAuthHeader h = Inl (Errorf ''invalid or missing HTTP auth header'')) \<and>
   (ParseBasicAuthHeader h = Inr (u, p) \<longleftrightarrow>
      (\<exists>tok. Fields (HeaderGet h ''Authorization'') = [''Basic'', tok]
         \<and> DecodeString tok = Some (u @ CHR '':'' # p) \<and> CHR '':'' \<notin> set u))"
proof -
  have "ParseBasicAuthHeader h = Inl (Errorf ''invalid or missing HTTP auth header'')"
    if "h ''Authorization'' = None \<or> HeaderGet h ''Authorization'' = []"
  proof -
    from that have "HeaderGet h ''Authorization'' = []" by (auto simp: HeaderGet_def)
    then have "length (Fields (HeaderGet h ''Authorization'')) \<noteq> 2"
      by (simp add: Fields_def flush_def)
    then show ?thesis by (simp add: ParseBasicAuthHeader_bad_parts)
  qed
  then show ?thesis
    using ParseBasicAuthHeader_Inl_iff [of h] ParseBasicAuthHeader_Inr_iff [of h u p]
    by blast
qed

theorem parse_fails_exactly_witness:
  "ParseBasicAuthHeader Map.empty = Inl (Errorf ''invalid or missing HTTP auth header'') \<and>
   Fields ''Basic YTpiOmM='' = [''Basic'', ''YTpiOmM=''] \<and>
   DecodeString ''YTpiOmM='' = Some ''a:b:c'' \<and>
   ParseBasicAuthHeader [''Authorization'' \<mapsto> [''Basic YTpiOmM='']] = Inr (''a'', ''b:c'')"
proof -
  have "Fields ([] @ ''Basic'' @ '' '' @ ''YTpiOmM='' @ []) = [''Basic'', ''YTpiOmM='']"
    by (rule Fields_Basic) (simp_all add: startsSpace_def spaceRunes_def asciiSpace_def)
  then have f: "Fields ''Basic YTpiOmM='' = [''Basic'', ''YTpiOmM='']" by simp
  have d: "DecodeString ''YTpiOmM='' = Some ''a:b:c''"
    by (simp add: DecodeString_def decodeMap_def IndexByteString_def encodeStd_def padChar_def
        char_of_eq_iff take_bit_eq_mod)
  have g: "HeaderGet [''Authorization'' \<mapsto> [''Basic YTpiOmM='']] ''Authorization''
      = ''Basic YTpiOmM=''"
    by (simp add: HeaderGet_def)
  have 1: "ParseBasicAuthHeader Map.empty
      = Inl (Errorf ''invalid or missing HTTP auth header'')"
    using parse_fails_exactly [of Map.empty "[]" "[]"] by simp
  have 2: "ParseBasicAuthHeader [''Authorization'' \<mapsto> [''Basic YTpiOmM='']]
      = Inr (''a'', ''b:c'')"
    using parse_fails_exactly [of "[''Authorization'' \<mapsto> [''Basic YTpiOmM='']]"
        "''a''" "''b:c''"] f d
    unfolding g by simp
  show ?thesis using f d 1 2 by simp
qed

text \<open>
  C6, as stated: a header that differs from \<open>Basic <base64>\<close> by more white space
  between the scheme and the token is rejected. It fails for two spaces between
  \<open>Basic\<close> and the token: the header is accepted and gives the credentials.
\<close>

theorem byte_exact_format_counterexample:
  "''Basic  YTpi'' \<noteq> ''Basic YTpi'' \<and>
   \<not> (\<exists>e. ParseBasicAuthHeader [''Authorization'' \<mapsto> [''Basic  YTpi'']] = Inl e) \<and>
   ParseBasicAuthHeader [''Authorization'' \<mapsto> [''Basic  YTpi'']] = Inr (''a'', ''b'')"
proof -
  have g: "HeaderGet [''Authorization'' \<mapsto> [''Basic  YTpi'']] ''Authorization''
      = ''Basic  YTpi''"
    by (simp add: HeaderGet_def)
  have "Fields ([] @ ''Basic'' @ ''  '' @ ''YTpi'' @ []) = [''Basic'', ''YTpi'']"
    by (rule Fields_Basic) (simp_all add: startsSpace_def spaceRunes_def asciiSpace_def)
  then have f: "Fields ''Basic  YTpi'' = [''Basic'', ''YTpi'']" by simp
  have d: "DecodeString ''YTpi'' = Some ''a:b''"
    by (simp add: DecodeString_def decodeMap_def IndexByteString_def encodeStd_def padChar_def
        char_of_eq_iff take_bit_eq_mod)
  have "ParseBasicAuthHeader [''Authorization'' \<mapsto> [''Basic  YTpi'']] = Inr (''a'', ''b'')"
    using ParseBasicAuthHeader_Inr_iff [of "[''Authorization'' \<mapsto> [''Basic  YTpi'']]"
        "''a''" "''b''"] f d
    unfolding g by simp
  then show ?thesis by simp
qed

text \<open>
  C6, amended: the scheme is matched byte for byte: a header whose first token is
  anything but \<open>Basic\<close>, such as \<open>basic\<close> or \<open>BASIC\<close>, is rejected. White space is not
  matched byte for byte: the value is split at runs of white space, so white space
  before the scheme, after the token, and any non-empty run of it between the two gives
  the same result as the form with a single space.
\<close>

theorem scheme_exact_space_lenient:
  "(Fields (HeaderGet h ''Authorization'') = [scheme, tok] \<and> scheme \<noteq> ''Basic'' \<longrightarrow>
      ParseBasicAuthHeader h = Inl (Errorf ''invalid or missing HTTP auth header'')) \<and>
   (list_all (\<lambda>c. \<not> startsSpace c) s \<and> s \<noteq> [] \<and> s \<noteq> ''Basic'' \<and>
    list_all (\<lambda>c. \<not> startsSpace c) t \<and> t \<noteq> [] \<longrightarrow>
      ParseBasicAuthHeader [''Authorization'' \<mapsto> [s @ '' '' @ t]]
        = Inl (Errorf ''invalid or missing HTTP auth header'')) \<and>
   (list_all asciiSpace pre \<and> list_all asciiSpace mid \<and> mid \<noteq> [] \<and> list_all asciiSpace post \<and>
    list_all (\<lambda>c. \<not> startsSpace c) t \<and> t \<noteq> [] \<longrightarrow>
      ParseBasicAuthHeader [''Authorization'' \<mapsto> [pre @ ''Basic'' @ mid @ t @ post]]
        = ParseBasicAuthHeader [''Authorization'' \<mapsto> [''Basic '' @ t]])"
proof -
  have 1: "ParseBasicAuthHeader h = Inl (Errorf ''invalid or missing HTTP auth header'')"
    if "Fields (HeaderGet h ''Authorization'') = [scheme, tok]" "scheme \<noteq> ''Basic''"
    using that by (intro ParseBasicAuthHeader_bad_parts) simp
  have sp: "list_all asciiSpace '' ''" by (simp add: asciiSpace_def)
  have 2: "ParseBasicAuthHeader [''Authorization'' \<mapsto> [s @ '' '' @ t]]
        = Inl (Errorf ''invalid or missing HTTP auth header'')"
    if s: "list_all (\<lambda>c. \<not> startsSpace c) s" "s \<noteq> []" "s \<noteq> ''Basic''"
      and t: "list_all (\<lambda>c. \<not> startsSpace c) t" "t \<noteq> []"
  proof -
    have "Fields ([] @ s @ '' '' @ t @ []) = [s, t]"
      by (rule Fields_two_tokens [OF s(1,2) t _ sp]) simp_all
    then have "Fields (HeaderGet [''Authorization'' \<mapsto> [s @ '' '' @ t]] ''Authorization'')
        = [s, t]"
      by (simp add: HeaderGet_def)
    then show ?thesis using s(3) by (intro ParseBasicAuthHeader_bad_parts) simp
  qed
  have 3: "ParseBasicAuthHeader [''Authorization'' \<mapsto> [pre @ ''Basic'' @ mid @ t @ post]]
        = ParseBasicAuthHeader [''Authorization'' \<mapsto> [''Basic '' @ t]]"
    if ws: "list_all asciiSpace pre" "list_all asciiSpace mid" "mid \<noteq> []"
      "list_all asciiSpace post"
      and t: "list_all (\<lambda>c. \<not> startsSpace c) t" "t \<noteq> []"
  proof -
    have a: "Fields (HeaderGet [''Authorization'' \<mapsto> [pre @ ''Basic'' @ mid @ t @ post]]
        ''Authorization'') = [''Basic'', t]"
      using Fields_Basic [OF t ws] by (simp add: HeaderGet_def)
    have "Fields ([] @ ''Basic'' @ '' '' @ t @ []) = [''Basic'', t]"
      by (rule Fields_Basic [OF t _ sp]) simp_all
    then have b: "Fields (HeaderGet [''Authorization'' \<mapsto> [''Basic '' @ t]]
        ''Authorization'') = [''Basic'', t]"
      by (simp add: HeaderGet_def)
    show ?thesis
      unfolding ParseBasicAuthHeader_parts [OF a] ParseBasicAuthHeader_parts [OF b] ..
  qed
  show ?thesis using 1 2 3 by blast
qed

theorem scheme_exact_space_lenient_witness:
  "ParseBasicAuthHeader [''Authorization'' \<mapsto> [''basic YTpi'']]
     = Inl (Errorf ''invalid or missing HTTP auth header'') \<and>
   ParseBasicAuthHeader [''Authorization'' \<mapsto> [[CHR 0x09] @ ''Basic'' @ ''   '' @ ''YTpi'' @ '' '']]
     = ParseBasicAuthHeader [''Authorization'' \<mapsto> [''Basic '' @ ''YTpi'']]"
proof -
  have p1: "list_all (\<lambda>c. \<not> startsSpace c) ''basic''" "list_all (\<lambda>c. \<not> startsSpace c) ''YTpi''"
    by (simp_all add: startsSpace_def spaceRunes_def)
  have p2: "list_all asciiSpace [CHR 0x09]" "list_all asciiSpace ''   ''"
    "list_all asciiSpace '' ''"
    by (simp_all add: asciiSpace_def)
  note t = scheme_exact_space_lenient [where s = "''basic''" and t = "''YTpi''"
      and pre = "[CHR 0x09]" and mid = "''   ''" and post = "'' ''"
      and h = Map.empty and scheme = "[]" and tok = "[]"]
  from t p1 p2 show ?thesis by simp
qed

end
